theory Spec2Isabelle
  imports Complex_Main "HOL-Library.AList" "HOL-Library.Log_Nat"
begin

section \<open>TaskProgressMonitor: a shallow embedding of \<^verbatim>\<open>TaskProgressMonitor.py\<close>\<close>

text \<open>
  The monitor object becomes a record, each method a function from the state before the
  call to the outcome of the call. An outcome is a pair: the exception raised (if any)
  and the state the call leaves behind, so that a caller who catches the exception and
  goes on is covered too.

  Conventions of the model:
  \<^item> Numbers are rationals. Every method that computes with floats takes the rounding
    \<open>rnd\<close> of the float arithmetic as an argument: \<open>round_double\<close> is the rounding of the
    machine (binary64, round to nearest, ties to even), the identity is exact arithmetic.
    A float operation is the exact operation followed by \<open>rnd\<close>, and an integer that
    meets a float is converted by \<open>rnd\<close> first.
  \<^item> The clock is an input: every \<^verbatim>\<open>datetime.now()\<close> of the source is an argument of
    the modelled method. The text of \<^verbatim>\<open>str(end_time - start_time)\<close> is an argument too
    (calendar arithmetic is not modelled).
  \<^item> The file system is an input of \<^verbatim>\<open>start()\<close>: \<open>fs_ok\<close> says whether \<^verbatim>\<open>mkdir\<close> and
    \<^verbatim>\<open>open\<close> succeed (they raise \<^verbatim>\<open>OSError\<close> otherwise). Writes to the open file succeed,
    and \<open>log_text\<close> is the text this monitor has appended to the file at
    \<^verbatim>\<open>log_file_path\<close>.
  \<^item> Painting is an input too. The terminal library parses the strings it paints as
    markup and raises \<^verbatim>\<open>MarkupError\<close> for a string such as \<^verbatim>\<open>[/bold]\<close>; whether a
    \<^verbatim>\<open>live.refresh()\<close> or the \<^verbatim>\<open>print\<close> of the history succeeds is an argument of the
    method that calls it. The two status lines printed at the end of \<^verbatim>\<open>stop()\<close> are
    fixed, well-formed markup. What is painted is not modelled, except for the text of
    the live panel and for what \<^verbatim>\<open>TailText\<close> renders; the repaint thread is not
    modelled.
\<close>

subsection \<open>Python values used by the source\<close>

datatype error = RuntimeError | ValueError | KeyError | ZeroDivisionError | OSError | MarkupError

text \<open>Truth value of a task handle: \<^verbatim>\<open>None\<close> is false, and so is the integer \<^verbatim>\<open>0\<close>.\<close>

fun truthy :: "nat option \<Rightarrow> bool" where
  "truthy None = False"
| "truthy (Some i) = (i \<noteq> 0)"

text \<open>The slice \<^verbatim>\<open>xs[i:]\<close>: a negative start counts from the end, and both are clamped.\<close>

definition slice_from :: "int \<Rightarrow> 'a list \<Rightarrow> 'a list" where
  "slice_from i xs =
     (let n = int (length xs);
          j = (if i < 0 then max 0 (n + i) else min i n)
      in drop (nat j) xs)"

text \<open>\<^verbatim>\<open>sep.join(xs)\<close>\<close>

fun join :: "string \<Rightarrow> string list \<Rightarrow> string" where
  "join sep [] = []"
| "join sep [x] = x"
| "join sep (x # y # ys) = x @ sep @ join sep (y # ys)"

text \<open>
  \<^verbatim>\<open>deque(maxlen=m).append(x)\<close>: the item is added on the right, and when the deque is
  then longer than \<open>m\<close> its leftmost item is popped.
\<close>

definition deque_append :: "nat \<Rightarrow> 'a \<Rightarrow> 'a list \<Rightarrow> 'a list" where
  "deque_append m x xs = (let ys = xs @ [x] in if m < length ys then tl ys else ys)"

definition newline :: char where
  "newline = CHR 0x0A"

definition digit_char :: "nat \<Rightarrow> char" where
  "digit_char d = ''0123456789'' ! d"

text \<open>\<^verbatim>\<open>str(n)\<close> of a non-negative and of any integer.\<close>

function str_nat :: "nat \<Rightarrow> string" where
  "str_nat n = (if n < 10 then [digit_char n] else str_nat (n div 10) @ [digit_char (n mod 10)])"
  by pat_completeness auto
termination
  by (relation "measure id") auto

declare str_nat.simps [simp del]

definition str_int :: "int \<Rightarrow> string" where
  "str_int i = (if i < 0 then ''-'' @ str_nat (nat (- i)) else str_nat (nat i))"

text \<open>Rounding to the nearest integer, ties to the even neighbour.\<close>

definition round_half_even :: "rat \<Rightarrow> int" where
  "round_half_even x =
     (let f = \<lfloor>x\<rfloor>; d = x - of_int f
      in if d < 1 / 2 then f else if 1 / 2 < d then f + 1 else if even f then f else f + 1)"

text \<open>
  The binary64 float nearest to \<open>x\<close>, ties to the even mantissa. \<open>exponent2 x\<close> is the
  \<open>e\<close> with \<open>2 ^ e \<le> \<bar>x\<bar> < 2 ^ (e + 1)\<close>: for \<open>\<bar>x\<bar> = p / q\<close> the difference \<open>d\<close> of the bit
  lengths of \<open>p\<close> and \<open>q\<close> satisfies \<open>2 ^ (d - 1) < \<bar>x\<bar> < 2 ^ (d + 1)\<close>, so \<open>e\<close> is \<open>d\<close> or
  \<open>d - 1\<close>. A normal float has 53 significant bits, so it is a multiple of
  \<open>2 ^ (e - 52)\<close>; below \<open>2 ^ - 1022\<close> the floats are the multiples of \<open>2 ^ - 1074\<close>. The
  exponent has no upper bound here: where the result reaches \<open>2 ^ 1024\<close> in magnitude the
  machine overflows (to an infinity, or with \<^verbatim>\<open>OverflowError\<close> when an integer is
  converted or divided), which the model does not follow, and it has no NaN and no
  negative zero.
\<close>

definition exponent2 :: "rat \<Rightarrow> int" where
  "exponent2 x =
     (let (p, q) = quotient_of \<bar>x\<bar>;
          d = bitlen p - bitlen q
      in if power_int 2 d \<le> \<bar>x\<bar> then d else d - 1)"

definition round_double :: "rat \<Rightarrow> rat" where
  "round_double x =
     (if x = 0 then 0
      else let u = power_int 2 (max (exponent2 x) (- 1022) - 52)
           in of_int (round_half_even (x / u)) * u)"

text \<open>
  \<^verbatim>\<open>f"{x:.2f}"\<close> of a float with the exact value \<open>x\<close>: the decimal with two places nearest
  to \<open>x\<close>, ties to the even neighbour, the sign kept.
\<close>

definition fmt_2f :: "rat \<Rightarrow> string" where
  "fmt_2f x =
     (let q = nat (round_half_even (\<bar>x\<bar> * 100))
      in (if x < 0 then ''-'' else '''') @ str_nat (q div 100) @ ''.''
         @ [digit_char (q mod 100 div 10), digit_char (q mod 10)])"

text \<open>A reading of the clock, and \<^verbatim>\<open>isoformat\<close> with and without \<^verbatim>\<open>timespec='seconds'\<close>.\<close>

record datetime =
  year :: nat
  month :: nat
  day :: nat
  hour :: nat
  minute :: nat
  second :: nat
  microsecond :: nat

definition zero_pad :: "nat \<Rightarrow> nat \<Rightarrow> string" where
  "zero_pad w n = replicate (w - length (str_nat n)) CHR ''0'' @ str_nat n"

definition isoformat_seconds :: "datetime \<Rightarrow> string" where
  "isoformat_seconds t =
     zero_pad 4 (year t) @ ''-'' @ zero_pad 2 (month t) @ ''-'' @ zero_pad 2 (day t) @ ''T''
     @ zero_pad 2 (hour t) @ '':'' @ zero_pad 2 (minute t) @ '':'' @ zero_pad 2 (second t)"

definition isoformat :: "datetime \<Rightarrow> string" where
  "isoformat t =
     isoformat_seconds t
     @ (if microsecond t = 0 then '''' else ''.'' @ zero_pad 6 (microsecond t))"

subsection \<open>The progress display of the terminal library\<close>

text \<open>
  \<^verbatim>\<open>rich.progress.Progress\<close> keeps its tasks in a dictionary from task id to task and a
  counter \<^verbatim>\<open>_task_index\<close> that starts at \<^verbatim>\<open>TaskID(0)\<close>. \<^verbatim>\<open>add_task\<close> stores the new task
  under the counter, returns that id and increments the counter; \<^verbatim>\<open>remove_task\<close> is
  \<^verbatim>\<open>del self._tasks[task_id]\<close>; \<^verbatim>\<open>update\<close> reads \<^verbatim>\<open>self._tasks[task_id]\<close> first. The
  last two raise \<^verbatim>\<open>KeyError\<close> for an id that is not in the dictionary (\<^verbatim>\<open>None\<close> never is).
\<close>

record ptask =
  t_description :: string
  t_total :: int
  t_completed :: rat
  t_info :: string

record progress =
  tasks :: "(nat \<times> ptask) list"
  task_index :: nat

definition new_progress :: progress where
  "new_progress = \<lparr>tasks = [], task_index = 0\<rparr>"

definition task_ids :: "progress \<Rightarrow> nat list" where
  "task_ids p = map fst (tasks p)"

definition add_task :: "string \<Rightarrow> int \<Rightarrow> rat \<Rightarrow> progress \<Rightarrow> nat \<times> progress" where
  "add_task descr tot compl p =
     (task_index p,
      p\<lparr>tasks := AList.update (task_index p)
                    \<lparr>t_description = descr, t_total = tot, t_completed = compl, t_info = ''''\<rparr>
                    (tasks p),
        task_index := task_index p + 1\<rparr>)"

definition remove_task :: "nat \<Rightarrow> progress \<Rightarrow> error + progress" where
  "remove_task i p =
     (if i \<in> set (task_ids p) then Inr (p\<lparr>tasks := AList.delete i (tasks p)\<rparr>)
      else Inl KeyError)"

definition advance_task :: "(rat \<Rightarrow> rat) \<Rightarrow> string option \<Rightarrow> ptask \<Rightarrow> ptask" where
  "advance_task plus_adv info t =
     t\<lparr>t_completed := plus_adv (t_completed t),
       t_info := (case info of None \<Rightarrow> t_info t | Some x \<Rightarrow> x)\<rparr>"

text \<open>
  \<^verbatim>\<open>Progress.update(task_id, advance=adv[, info=info])\<close>, where \<open>plus_adv c\<close> is what
  \<^verbatim>\<open>c + adv\<close> evaluates to (exact for two integers, rounded when \<^verbatim>\<open>adv\<close> is a float).
\<close>

definition update_task ::
  "nat option \<Rightarrow> (rat \<Rightarrow> rat) \<Rightarrow> string option \<Rightarrow> progress \<Rightarrow> error + progress" where
  "update_task h plus_adv info p =
     (case h of
        None \<Rightarrow> Inl KeyError
      | Some i \<Rightarrow>
          if i \<in> set (task_ids p)
          then Inr (p\<lparr>tasks := AList.map_entry i (advance_task plus_adv info) (tasks p)\<rparr>)
          else Inl KeyError)"

subsection \<open>The monitor\<close>

record monitor =
  progress :: progress
  static_content :: "string list"
  max_static_lines :: nat
  live_info :: string
  overall_task :: "nat option"
  subtask :: "nat option"
  live_started :: bool
  log_file :: bool
  log_text :: string
  start_time :: "datetime option"
  end_time :: "datetime option"
  overall_total :: int
  overall_completed :: rat
  subtask_total :: int
  subtask_completed :: int

text \<open>
  \<^verbatim>\<open>__init__\<close>. \<^verbatim>\<open>deque(maxlen=max_static_lines)\<close> raises \<^verbatim>\<open>ValueError\<close> for a negative
  length; otherwise the fields are those of \<open>init_state\<close>.
\<close>

definition init_state :: "nat \<Rightarrow> monitor" where
  "init_state m =
     \<lparr>progress = new_progress, static_content = [], max_static_lines = m,
      live_info = ''Waiting for first update...'',
      overall_task = None, subtask = None, live_started = False,
      log_file = False, log_text = '''', start_time = None, end_time = None,
      overall_total = 0, overall_completed = 0, subtask_total = 0, subtask_completed = 0\<rparr>"

definition new_monitor :: "int \<Rightarrow> error + monitor" where
  "new_monitor max_lines =
     (if max_lines < 0 then Inl ValueError else Inr (init_state (nat max_lines)))"

type_synonym outcome = "error option \<times> monitor"

definition start :: "bool \<Rightarrow> datetime \<Rightarrow> datetime \<Rightarrow> monitor \<Rightarrow> outcome" where
  "start fs_ok now1 now2 s =
     (if live_started s then (None, s)
      else if \<not> fs_ok then (Some OSError, s)
      else (None,
            s\<lparr>log_file := True,
              log_text := log_text s @ ''================= Log started at '' @ isoformat now1
                          @ '' ================='' @ [newline],
              live_started := True,
              start_time := Some now2\<rparr>))"

definition complete :: "bool \<Rightarrow> monitor \<Rightarrow> outcome" where
  "complete refresh_ok s =
     (if \<not> live_started s then (None, s)
      else
        let s1 = s\<lparr>live_info := ''[bold green]All Tasks Finished![/]''\<rparr> in
        case (if truthy (subtask s1)
              then (case remove_task (the (subtask s1)) (progress s1) of
                      Inl e \<Rightarrow> Inl e
                    | Inr p \<Rightarrow> Inr (s1\<lparr>progress := p, subtask := None\<rparr>))
              else Inr s1) of
          Inl e \<Rightarrow> (Some e, s1)
        | Inr s2 \<Rightarrow>
            (case (if truthy (overall_task s2)
                   then (case remove_task (the (overall_task s2)) (progress s2) of
                           Inl e \<Rightarrow> Inl e
                         | Inr p \<Rightarrow> Inr (s2\<lparr>progress := p, overall_task := None\<rparr>))
                   else Inr s2) of
               Inl e \<Rightarrow> (Some e, s2)
             | Inr s3 \<Rightarrow> (if refresh_ok then (None, s3) else (Some MarkupError, s3))))"

text \<open>
  \<^verbatim>\<open>stop(success)\<close>. \<open>refresh_ok\<close> is for the repaint inside \<^verbatim>\<open>complete()\<close>,
  \<open>refresh_ok2\<close> for the repaint of \<^verbatim>\<open>stop()\<close> itself and \<open>print_ok\<close> for the \<^verbatim>\<open>print\<close> of
  the history. An exception leaves the method at once: the log stays open and
  \<^verbatim>\<open>_live_started\<close> stays set.
\<close>

definition stop ::
  "bool \<Rightarrow> bool \<Rightarrow> bool \<Rightarrow> bool \<Rightarrow> datetime \<Rightarrow> datetime \<Rightarrow> string \<Rightarrow> monitor \<Rightarrow> outcome" where
  "stop success refresh_ok refresh_ok2 print_ok now1 now2 elapsed s =
     (if \<not> live_started s then (None, s)
      else
        case complete refresh_ok s of
          (Some e, s1) \<Rightarrow> (Some e, s1)
        | (None, s1) \<Rightarrow>
            if \<not> refresh_ok2 then (Some MarkupError, s1)
            else
              let s2 = s1\<lparr>end_time := Some now1\<rparr> in
              if \<not> print_ok then (Some MarkupError, s2)
              else
                let s3 = (if log_file s2
                          then s2\<lparr>log_text := log_text s2
                                     @ ''================= Task completed at '' @ isoformat now2
                                     @ '' ================='' @ [newline]
                                     @ ''================= Time Elapse: '' @ elapsed
                                     @ '' ================='' @ [newline],
                                  log_file := False\<rparr>
                          else s2)
                in (None, s3\<lparr>live_started := False\<rparr>))"

definition init_overall_task :: "string \<Rightarrow> int \<Rightarrow> int \<Rightarrow> monitor \<Rightarrow> outcome" where
  "init_overall_task title total_phases start_phase s =
     (if \<not> live_started s then (Some RuntimeError, s)
      else
        case (if truthy (overall_task s) then remove_task (the (overall_task s)) (progress s)
              else Inr (progress s)) of
          Inl e \<Rightarrow> (Some e, s)
        | Inr p \<Rightarrow>
            let (tid, p') = add_task (''[cyan]'' @ title) total_phases (of_int start_phase) p
            in (None,
                s\<lparr>progress := p', overall_task := Some tid,
                  overall_total := total_phases, overall_completed := of_int start_phase\<rparr>))"

definition init_subtask :: "string \<Rightarrow> int \<Rightarrow> monitor \<Rightarrow> outcome" where
  "init_subtask title total_tasks s =
     (if \<not> live_started s then (Some RuntimeError, s)
      else if total_tasks \<le> 0 then (Some ValueError, s)
      else
        case (if truthy (subtask s) then remove_task (the (subtask s)) (progress s)
              else Inr (progress s)) of
          Inl e \<Rightarrow> (Some e, s)
        | Inr p \<Rightarrow>
            let (tid, p') = add_task (''[green]'' @ title) total_tasks 0 p
            in (None,
                s\<lparr>progress := p', subtask := Some tid,
                  subtask_total := total_tasks, subtask_completed := 0\<rparr>))"

definition update_progress :: "(rat \<Rightarrow> rat) \<Rightarrow> int \<Rightarrow> string \<Rightarrow> monitor \<Rightarrow> outcome" where
  "update_progress rnd step info s =
     (if \<not> live_started s then (Some RuntimeError, s)
      else
        case update_task (subtask s) (\<lambda>c. c + of_int step) (Some info) (progress s) of
          Inl e \<Rightarrow> (Some e, s)
        | Inr p1 \<Rightarrow>
            let s1 = s\<lparr>progress := p1\<rparr> in
            if subtask_total s1 = 0 then (Some ZeroDivisionError, s1)
            else
              let total_advance = rnd (of_int step / of_int (subtask_total s1)) in
              (case update_task (overall_task s1) (\<lambda>c. rnd (rnd c + total_advance)) None
                      (progress s1) of
                 Inl e \<Rightarrow> (Some e, s1)
               | Inr p2 \<Rightarrow>
                   (None,
                    s1\<lparr>progress := p2,
                       subtask_completed := subtask_completed s1 + step,
                       overall_completed :=
                         rnd (rnd (overall_completed s1) + total_advance)\<rparr>)))"

text \<open>
  \<^verbatim>\<open>_log_to_file\<close>. The \<^verbatim>\<open>:.2f\<close> format converts an integer counter to a float first.
\<close>

definition log_line :: "(rat \<Rightarrow> rat) \<Rightarrow> string \<Rightarrow> datetime \<Rightarrow> monitor \<Rightarrow> string" where
  "log_line rnd message now s =
     isoformat_seconds now @ '' | ''
     @ fmt_2f (rnd (overall_completed s)) @ ''/'' @ str_int (overall_total s) @ '' | ''
     @ str_int (subtask_completed s) @ ''/'' @ str_int (subtask_total s) @ '' | ''
     @ message"

definition log_to_file :: "(rat \<Rightarrow> rat) \<Rightarrow> string \<Rightarrow> datetime \<Rightarrow> monitor \<Rightarrow> monitor" where
  "log_to_file rnd message now s =
     (if \<not> log_file s then s
      else s\<lparr>log_text := log_text s @ log_line rnd message now s @ [newline]\<rparr>)"

definition update_live_info :: "(rat \<Rightarrow> rat) \<Rightarrow> string \<Rightarrow> datetime \<Rightarrow> monitor \<Rightarrow> outcome" where
  "update_live_info rnd info now s =
     (if \<not> live_started s then (Some RuntimeError, s)
      else (None, log_to_file rnd info now (s\<lparr>live_info := info\<rparr>)))"

definition update_static_info :: "(rat \<Rightarrow> rat) \<Rightarrow> string \<Rightarrow> datetime \<Rightarrow> monitor \<Rightarrow> outcome" where
  "update_static_info rnd info now s =
     (if \<not> live_started s then (Some RuntimeError, s)
      else (None,
            log_to_file rnd info now
              (s\<lparr>static_content := deque_append (max_static_lines s) info (static_content s)\<rparr>)))"

text \<open>
  \<^verbatim>\<open>TailText.__rich_console__\<close>: the lines kept for a panel of the given height, and the
  text that is yielded.
\<close>

definition display_lines :: "int \<Rightarrow> string list \<Rightarrow> string list" where
  "display_lines height text_deque =
     (let max_lines = max 1 height in slice_from (- max_lines) text_deque)"

definition tail_text :: "int \<Rightarrow> string list \<Rightarrow> string" where
  "tail_text height text_deque = join [newline] (display_lines height text_deque)"

subsection \<open>Sequences of calls\<close>

datatype op =
    Start bool datetime datetime
  | Stop bool bool bool bool datetime datetime string
  | InitOverall string int int
  | InitSubtask string int
  | UpdateProgress int string
  | UpdateLive string datetime
  | UpdateStatic string datetime
  | Complete bool

fun apply_op :: "(rat \<Rightarrow> rat) \<Rightarrow> op \<Rightarrow> monitor \<Rightarrow> outcome" where
  "apply_op rnd (Start f n1 n2) s = start f n1 n2 s"
| "apply_op rnd (Stop b r1 r2 pr n1 n2 el) s = stop b r1 r2 pr n1 n2 el s"
| "apply_op rnd (InitOverall t n k) s = init_overall_task t n k s"
| "apply_op rnd (InitSubtask t n) s = init_subtask t n s"
| "apply_op rnd (UpdateProgress k i) s = update_progress rnd k i s"
| "apply_op rnd (UpdateLive i n) s = update_live_info rnd i n s"
| "apply_op rnd (UpdateStatic i n) s = update_static_info rnd i n s"
| "apply_op rnd (Complete r) s = complete r s"

text \<open>
  \<open>run\<close>: the caller goes on after an exception, with the state the failed call left.
  \<open>exec\<close>: the first exception ends the sequence.
\<close>

fun run :: "(rat \<Rightarrow> rat) \<Rightarrow> op list \<Rightarrow> monitor \<Rightarrow> monitor" where
  "run rnd [] s = s"
| "run rnd (c # cs) s = run rnd cs (snd (apply_op rnd c s))"

fun exec :: "(rat \<Rightarrow> rat) \<Rightarrow> op list \<Rightarrow> monitor \<Rightarrow> outcome" where
  "exec rnd [] s = (None, s)"
| "exec rnd (c # cs) s =
     (case apply_op rnd c s of
        (Some e, s') \<Rightarrow> (Some e, s')
      | (None, s') \<Rightarrow> exec rnd cs s')"

text \<open>A reading of the clock for the examples.\<close>

definition clock0 :: datetime where
  "clock0 = \<lparr>year = 2024, month = 1, day = 2, hour = 3, minute = 4, second = 5,
              microsecond = 0\<rparr>"



text \<open>
  What every state reached through the public methods satisfies: a subtask handle comes
  with a positive stored total, the history is within its capacity, every handle names a
  task of the progress display, the two handles differ, every task id is below the
  counter, and the log is open exactly while the monitor is started.
\<close>

definition consistent :: "monitor \<Rightarrow> bool" where
  "consistent s \<longleftrightarrow>
     (case subtask s of
        None \<Rightarrow> True
      | Some i \<Rightarrow> 0 < subtask_total s \<and> i \<in> set (task_ids (progress s))
                 \<and> overall_task s \<noteq> Some i)
     \<and> (case overall_task s of
          None \<Rightarrow> True
        | Some j \<Rightarrow> j \<in> set (task_ids (progress s)))
     \<and> list_all (\<lambda>k. k < task_index (progress s)) (task_ids (progress s))
     \<and> length (static_content s) \<le> max_static_lines s
     \<and> log_file s = live_started s"

text \<open>The completed count that the progress display holds for the task with id \<open>j\<close>.\<close>

definition task_completed :: "nat \<Rightarrow> monitor \<Rightarrow> rat option" where
  "task_completed j s = map_option t_completed (map_of (tasks (progress s)) j)"

text \<open>
  The calls of the spec's scenario: \<^verbatim>\<open>start()\<close>, \<^verbatim>\<open>init_overall_task("P", 2)\<close>,
  \<^verbatim>\<open>init_subtask("A", 4)\<close> and four \<^verbatim>\<open>update_progress()\<close>; then \<^verbatim>\<open>init_subtask("B", 2)\<close>
  and two \<^verbatim>\<open>update_progress()\<close>.
\<close>

definition scenario_A :: "op list" where
  "scenario_A =
     [Start True clock0 clock0, InitOverall ''P'' 2 0, InitSubtask ''A'' 4,
      UpdateProgress 1 '''', UpdateProgress 1 '''', UpdateProgress 1 '''', UpdateProgress 1 '''']"

definition scenario_B :: "op list" where
  "scenario_B = [InitSubtask ''B'' 2, UpdateProgress 1 '''', UpdateProgress 1 '''']"

section \<open>Reachable states\<close>

lemma add_task_facts:
  "fst (add_task d t c p) = task_index p"
  "set (task_ids (snd (add_task d t c p))) = insert (task_index p) (set (task_ids p))"
  "task_index (snd (add_task d t c p)) = Suc (task_index p)"
  by (simp_all add: add_task_def task_ids_def AList.dom_update)

lemma task_ids_delete:
  "set (task_ids (p\<lparr>tasks := AList.delete i ts\<rparr>)) = set (task_ids (p\<lparr>tasks := ts\<rparr>)) - {i}"
  by (simp add: task_ids_def AList.delete_keys)

lemma task_ids_map_entry:
  "set (task_ids (p\<lparr>tasks := AList.map_entry i f ts\<rparr>)) = set (task_ids (p\<lparr>tasks := ts\<rparr>))"
  by (simp add: task_ids_def AList.dom_map_entry)

lemma remove_task_live:
  "i \<in> set (task_ids p) \<Longrightarrow> remove_task i p = Inr (p\<lparr>tasks := AList.delete i (tasks p)\<rparr>)"
  by (simp add: remove_task_def)

lemma update_task_live:
  "i \<in> set (task_ids p) \<Longrightarrow>
   update_task (Some i) a x p = Inr (p\<lparr>tasks := AList.map_entry i (advance_task a x) (tasks p)\<rparr>)"
  by (simp add: update_task_def)

lemma update_task_None: "update_task None a x p = Inl KeyError"
  by (simp add: update_task_def)

lemma consistent_iff:
  "consistent s \<longleftrightarrow>
     (\<forall>i. subtask s = Some i \<longrightarrow>
        0 < subtask_total s \<and> i \<in> set (task_ids (progress s)) \<and> overall_task s \<noteq> Some i)
     \<and> (\<forall>j. overall_task s = Some j \<longrightarrow> j \<in> set (task_ids (progress s)))
     \<and> (\<forall>k \<in> set (task_ids (progress s)). k < task_index (progress s))
     \<and> length (static_content s) \<le> max_static_lines s
     \<and> log_file s = live_started s"
  by (simp add: consistent_def list_all_iff split: option.splits)

lemma consistent_init_state: "consistent (init_state m)"
  by (simp add: consistent_iff init_state_def new_progress_def task_ids_def)

lemma consistent_start: "consistent s \<Longrightarrow> consistent (snd (start f n1 n2 s))"
  by (simp add: consistent_iff start_def)


lemma task_index_tasks_update [simp]: "task_index (p\<lparr>tasks := ts\<rparr>) = task_index p"
  by simp

lemma consistent_complete: "consistent s \<Longrightarrow> consistent (snd (complete r s))"
  by (cases "subtask s"; cases "overall_task s")
    (auto simp: consistent_iff complete_def Let_def remove_task_live task_ids_delete)

lemma complete_live_started: "live_started (snd (complete r s)) = live_started s"
  by (auto simp: complete_def Let_def split: sum.splits)


lemma complete_error: "consistent s \<Longrightarrow> fst (complete r s) \<in> {None, Some MarkupError}"
  by (cases "subtask s"; cases "overall_task s")
    (auto simp: consistent_iff complete_def Let_def remove_task_live task_ids_delete)

lemma consistent_stop: "consistent s \<Longrightarrow> consistent (snd (stop b r1 r2 pr n1 n2 el s))"
proof -
  assume c: "consistent s"
  obtain e s1 where cs: "complete r1 s = (e, s1)" by (cases "complete r1 s")
  with consistent_complete [OF c, of r1] complete_live_started [of r1 s]
  have "consistent s1" and "live_started s1 = live_started s" by simp_all
  with c cs show ?thesis
    by (cases e) (auto simp: stop_def Let_def consistent_iff)
qed

lemma consistent_init_overall_task:
  "consistent s \<Longrightarrow> consistent (snd (init_overall_task t n k s))"
  by (cases "subtask s"; cases "overall_task s")
    (auto simp: consistent_iff init_overall_task_def Let_def remove_task_live task_ids_delete
      split_beta add_task_facts)

lemma consistent_init_subtask:
  "consistent s \<Longrightarrow> consistent (snd (init_subtask t n s))"
  by (cases "subtask s"; cases "overall_task s")
    (auto simp: consistent_iff init_subtask_def Let_def remove_task_live task_ids_delete
      split_beta add_task_facts)

lemma consistent_update_progress:
  "consistent s \<Longrightarrow> consistent (snd (update_progress rnd k i s))"
  by (cases "subtask s"; cases "overall_task s")
    (auto simp: consistent_iff update_progress_def Let_def update_task_live update_task_None
      task_ids_map_entry)

lemma consistent_update_live_info:
  "consistent s \<Longrightarrow> consistent (snd (update_live_info rnd i n s))"
  by (simp add: consistent_iff update_live_info_def log_to_file_def)

lemma length_deque_append: "length xs \<le> m \<Longrightarrow> length (deque_append m x xs) \<le> m"
  by (auto simp: deque_append_def Let_def)

lemma consistent_update_static_info:
  "consistent s \<Longrightarrow> consistent (snd (update_static_info rnd i n s))"
  by (simp add: consistent_iff update_static_info_def log_to_file_def length_deque_append)

lemma consistent_apply_op: "consistent s \<Longrightarrow> consistent (snd (apply_op rnd c s))"
  by (cases c)
    (simp_all add: consistent_start consistent_stop consistent_init_overall_task
      consistent_init_subtask consistent_update_progress consistent_update_live_info
      consistent_update_static_info consistent_complete)

lemma consistent_run: "consistent s \<Longrightarrow> consistent (run rnd cs s)"
  by (induction cs arbitrary: s) (simp_all add: consistent_apply_op)

section \<open>Tail rendering\<close>

lemma slice_from_neg:
  assumes "i < 0"
  shows "slice_from i xs = drop (length xs - nat (- i)) xs"
proof -
  have "nat (max 0 (int (length xs) + i)) = length xs - nat (- i)"
    using assms by arith
  with assms show ?thesis
    by (simp add: slice_from_def Let_def)
qed

lemma display_lines_drop: "display_lines H S = drop (length S - nat (max 1 H)) S"
  by (simp add: display_lines_def Let_def slice_from_neg)

text \<open>
  Claim C5. For every snapshot \<open>S\<close> and every viewport height \<open>H\<close>, \<^verbatim>\<open>TailText\<close> keeps
  exactly the last \<open>max 1 H\<close> lines of \<open>S\<close>, or all of \<open>S\<close> when it has fewer, in their
  order: the kept lines are \<open>S\<close> without its first \<open>length S - max 1 H\<close> lines, their
  number is the smaller of \<open>max 1 H\<close> and \<open>length S\<close>, and they are a suffix of \<open>S\<close>. When
  \<open>H\<close> is at least the length of \<open>S\<close> the output is the whole of \<open>S\<close>. The yielded text is
  these lines joined by line breaks. The renderer is a function of \<open>S\<close> and \<open>H\<close> alone, so
  equal inputs give equal outputs.
\<close>

theorem tail_text_last_lines:
  "display_lines H S = drop (length S - nat (max 1 H)) S
   \<and> length (display_lines H S) = min (nat (max 1 H)) (length S)
   \<and> take (length S - nat (max 1 H)) S @ display_lines H S = S
   \<and> (int (length S) \<le> H \<longrightarrow> display_lines H S = S)
   \<and> tail_text H S = join [newline] (drop (length S - nat (max 1 H)) S)"
  by (auto simp: display_lines_drop tail_text_def)

theorem tail_text_last_lines_witness:
  "display_lines 2 [''a'', ''b'', ''c''] = [''b'', ''c'']
   \<and> display_lines 0 [''a'', ''b'', ''c''] = [''c'']
   \<and> (int (length [''a'', ''b'', ''c'']) \<le> 3
        \<and> display_lines 3 [''a'', ''b'', ''c''] = [''a'', ''b'', ''c''])
   \<and> tail_text 2 [''a'', ''b'', ''c''] = ''b'' @ [newline] @ ''c''"
  using tail_text_last_lines [of 2 "[''a'', ''b'', ''c'']"]
    tail_text_last_lines [of 0 "[''a'', ''b'', ''c'']"]
    tail_text_last_lines [of 3 "[''a'', ''b'', ''c'']"]
  by simp

section \<open>Guards of the update methods\<close>

lemma stop_returned:
  assumes "fst (stop b r1 r2 pr n1 n2 el s) = None"
  shows "\<not> live_started (snd (stop b r1 r2 pr n1 n2 el s))"
  using assms
  by (cases "complete r1 s") (auto simp: stop_def Let_def split: option.splits if_splits)

lemma stop_error: "consistent s \<Longrightarrow> fst (stop b r1 r2 pr n1 n2 el s) \<in> {None, Some MarkupError}"
  using complete_error [of s r1]
  by (cases "complete r1 s"; cases r2; cases pr) (auto simp: stop_def Let_def)




text \<open>
  Claim C6. Each of \<^verbatim>\<open>init_overall_task\<close>, \<^verbatim>\<open>init_subtask\<close>, \<^verbatim>\<open>update_progress\<close>,
  \<^verbatim>\<open>update_live_info\<close> and \<^verbatim>\<open>update_static_info\<close>, called while the monitor is not
  started, raises \<^verbatim>\<open>RuntimeError("Monitor must be started first")\<close> (the spec's
  NotStartedError) and leaves the state as it was. The monitor is not started before
  \<^verbatim>\<open>start()\<close> and after a \<^verbatim>\<open>stop()\<close> that has returned. On a started monitor,
  \<^verbatim>\<open>init_subtask\<close> with \<open>total_tasks \<le> 0\<close> raises \<^verbatim>\<open>ValueError\<close> (the spec's
  InvalidArgumentError).
\<close>

theorem update_methods_require_started:
  "(\<not> live_started s \<longrightarrow>
      init_overall_task title total_phases start_phase s = (Some RuntimeError, s)
      \<and> init_subtask title' total_tasks s = (Some RuntimeError, s)
      \<and> update_progress rnd step info s = (Some RuntimeError, s)
      \<and> update_live_info rnd info' now s = (Some RuntimeError, s)
      \<and> update_static_info rnd info'' now' s = (Some RuntimeError, s))
   \<and> \<not> live_started (init_state cap)
   \<and> (fst (stop success refresh_ok refresh_ok2 print_ok now1 now2 elapsed s) = None \<longrightarrow>
        \<not> live_started (snd (stop success refresh_ok refresh_ok2 print_ok now1 now2 elapsed s)))
   \<and> (live_started s \<and> total_tasks \<le> 0 \<longrightarrow>
        init_subtask title' total_tasks s = (Some ValueError, s))"
  using stop_returned [of success refresh_ok refresh_ok2 print_ok now1 now2 elapsed s]
  by (simp add: init_overall_task_def init_subtask_def update_progress_def
      update_live_info_def update_static_info_def init_state_def)

theorem update_methods_require_started_witness:
  "\<not> live_started (init_state 1000)
   \<and> init_overall_task ''P'' 2 0 (init_state 1000) = (Some RuntimeError, init_state 1000)
   \<and> init_subtask ''A'' 4 (init_state 1000) = (Some RuntimeError, init_state 1000)
   \<and> update_progress round_double 1 '''' (init_state 1000) = (Some RuntimeError, init_state 1000)
   \<and> update_live_info round_double ''x'' clock0 (init_state 1000)
       = (Some RuntimeError, init_state 1000)
   \<and> update_static_info round_double ''y'' clock0 (init_state 1000)
       = (Some RuntimeError, init_state 1000)
   \<and> live_started (snd (start True clock0 clock0 (init_state 1000)))
   \<and> init_subtask ''A'' 0 (snd (start True clock0 clock0 (init_state 1000)))
       = (Some ValueError, snd (start True clock0 clock0 (init_state 1000)))
   \<and> fst (stop True True True True clock0 clock0 ''0:00:00''
          (snd (start True clock0 clock0 (init_state 1000)))) = None
   \<and> \<not> live_started
         (snd (stop True True True True clock0 clock0 ''0:00:00''
            (snd (start True clock0 clock0 (init_state 1000)))))"
  using update_methods_require_started
      [of "init_state 1000" "''P''" 2 0 "''A''" 4 round_double 1 "''''" "''x''" clock0 "''y''"
          clock0 1000 True True True True clock0 clock0 "''0:00:00''"]
    update_methods_require_started
      [of "snd (start True clock0 clock0 (init_state 1000))" "''P''" 2 0 "''A''" 0 round_double 1
          "''''" "''x''" clock0 "''y''" clock0 1000 True True True True clock0 clock0 "''0:00:00''"]
  by (simp add: init_state_def start_def stop_def complete_def Let_def)

text \<open>
  Claim C9. When \<^verbatim>\<open>init_subtask\<close> is called with \<open>total_tasks \<le> 0\<close> it raises before it
  changes anything: the state after the call is the state before it, in every field (the
  subtask handle, the stored subtask total and completed counter, the overall-task state
  and the progress display). The exception is \<^verbatim>\<open>ValueError\<close> on a started monitor and
  \<^verbatim>\<open>RuntimeError\<close> otherwise.
\<close>

theorem init_subtask_error_atomic:
  "total_tasks \<le> 0 \<Longrightarrow>
   init_subtask title total_tasks s =
     (Some (if live_started s then ValueError else RuntimeError), s)"
  by (simp add: init_subtask_def)

theorem init_subtask_error_atomic_witness:
  "(0::int) \<le> 0
   \<and> init_subtask ''A'' 0 (snd (start True clock0 clock0 (init_state 1000)))
       = (Some ValueError, snd (start True clock0 clock0 (init_state 1000)))
   \<and> (- 3::int) \<le> 0
   \<and> init_subtask ''A'' (- 3) (init_state 1000) = (Some RuntimeError, init_state 1000)"
  using init_subtask_error_atomic [of 0 "''A''" "snd (start True clock0 clock0 (init_state 1000))"]
    init_subtask_error_atomic [of "- 3" "''A''" "init_state 1000"]
  by (simp add: init_state_def start_def)

section \<open>Lifecycle\<close>







section \<open>The division in \<^verbatim>\<open>update_progress\<close>\<close>

lemma no_zero_division:
  assumes "consistent s"
  shows "fst (apply_op rnd c s) \<noteq> Some ZeroDivisionError"
proof (cases c)
  case (Start f n1 n2)
  then show ?thesis by (simp add: start_def)
next
  case (Stop b r1 r2 pr n1 n2 el)
  then show ?thesis using stop_error [OF assms, of b r1 r2 pr n1 n2 el] by auto
next
  case (InitOverall t n k)
  then show ?thesis
    by (auto simp: init_overall_task_def remove_task_def split_beta split: sum.splits if_splits)
next
  case (InitSubtask t n)
  then show ?thesis
    by (auto simp: init_subtask_def remove_task_def split_beta split: sum.splits if_splits)
next
  case (UpdateProgress k i)
  with assms show ?thesis
    by (cases "subtask s")
      (auto simp: update_progress_def update_task_def Let_def consistent_iff
        split: sum.splits option.splits if_splits)
next
  case (UpdateLive i n)
  then show ?thesis by (simp add: update_live_info_def)
next
  case (UpdateStatic i n)
  then show ?thesis by (simp add: update_static_info_def)
next
  case (Complete r)
  then show ?thesis using complete_error [OF assms, of r] by auto
qed

text \<open>
  The claim that \<^verbatim>\<open>update_progress\<close> is never reached while the stored subtask total is
  \<open>0\<close> does not hold: right after \<^verbatim>\<open>start()\<close> the monitor is started, the stored total is
  the \<open>0\<close> of \<^verbatim>\<open>__init__\<close>, and \<^verbatim>\<open>update_progress()\<close> passes its guard. What keeps it from
  dividing is the progress display, which raises \<^verbatim>\<open>KeyError\<close> for the missing subtask
  handle one line earlier.
\<close>

theorem update_progress_reached_with_zero_total_counterexample:
  "live_started (run round_double [Start True clock0 clock0] (init_state 1000))
   \<and> subtask_total (run round_double [Start True clock0 clock0] (init_state 1000)) = 0
   \<and> fst (update_progress round_double 1 ''''
          (run round_double [Start True clock0 clock0] (init_state 1000))) = Some KeyError"
  by (simp add: init_state_def start_def update_progress_def update_task_def)

text \<open>
  Claim C2, amended. After every sequence of public calls on a new monitor (failed calls
  included), whatever the rounding of the float arithmetic, no call raises
  \<^verbatim>\<open>ZeroDivisionError\<close>: the division in \<^verbatim>\<open>update_progress\<close> is never evaluated with a
  zero total. Whenever a subtask handle is set the stored subtask total is positive
  (\<^verbatim>\<open>init_subtask\<close> rejects the others). While no subtask handle is set (the stored total
  may then be \<open>0\<close>), \<^verbatim>\<open>update_progress\<close> on a started monitor raises \<^verbatim>\<open>KeyError\<close> from the
  progress display before the division and changes nothing.
\<close>

theorem division_never_by_zero:
  "fst (apply_op rnd c (run rnd cs (init_state cap))) \<noteq> Some ZeroDivisionError
   \<and> (subtask (run rnd cs (init_state cap)) \<noteq> None \<longrightarrow>
        0 < subtask_total (run rnd cs (init_state cap)))
   \<and> (live_started (run rnd cs (init_state cap)) \<and> subtask (run rnd cs (init_state cap)) = None \<longrightarrow>
        update_progress rnd step info (run rnd cs (init_state cap))
          = (Some KeyError, run rnd cs (init_state cap)))"
proof -
  have c: "consistent (run rnd cs (init_state cap))"
    by (simp add: consistent_run consistent_init_state)
  then have "subtask (run rnd cs (init_state cap)) \<noteq> None \<longrightarrow>
      0 < subtask_total (run rnd cs (init_state cap))"
    by (auto simp: consistent_iff)
  with no_zero_division [OF c] show ?thesis
    by (simp add: update_progress_def update_task_None)
qed

theorem division_never_by_zero_witness:
  "fst (apply_op round_double (UpdateProgress 1 '''')
          (run round_double
             [Start True clock0 clock0, InitOverall ''P'' 2 0, InitSubtask ''A'' 4]
             (init_state 1000)))
     = None
   \<and> subtask
        (run round_double [Start True clock0 clock0, InitOverall ''P'' 2 0, InitSubtask ''A'' 4]
           (init_state 1000))
       = Some 1
   \<and> subtask_total
         (run round_double [Start True clock0 clock0, InitOverall ''P'' 2 0, InitSubtask ''A'' 4]
            (init_state 1000)) = 4
   \<and> live_started (run round_double [Start True clock0 clock0] (init_state 1000))
   \<and> subtask (run round_double [Start True clock0 clock0] (init_state 1000)) = None
   \<and> update_progress round_double 1 ''''
        (run round_double [Start True clock0 clock0] (init_state 1000))
       = (Some KeyError, run round_double [Start True clock0 clock0] (init_state 1000))"
  using division_never_by_zero
      [of round_double "UpdateProgress 1 ''''"
          "[Start True clock0 clock0, InitOverall ''P'' 2 0, InitSubtask ''A'' 4]" 1000 1 "''''"]
    division_never_by_zero
      [of round_double "UpdateProgress 1 ''''" "[Start True clock0 clock0]" 1000 1 "''''"]
  by (simp add: init_state_def start_def init_overall_task_def init_subtask_def
      update_progress_def update_task_def add_task_def new_progress_def task_ids_def Let_def)

section \<open>The history buffer\<close>

lemma tl_drop_1: "tl ys = drop 1 ys"
  by (simp add: drop_Suc)

lemma deque_append_drop:
  assumes "length xs \<le> m"
  shows "deque_append m x xs = drop (Suc (length xs) - m) (xs @ [x])"
proof (cases "length xs < m")
  case True
  then show ?thesis by (simp add: deque_append_def Let_def)
next
  case False
  with assms have "Suc (length xs) - m = 1" by simp
  with False show ?thesis
    unfolding deque_append_def Let_def by (simp only: tl_drop_1) simp
qed

lemma deque_append_evicts:
  "\<exists>k. deque_append m x xs = drop k (xs @ [x]) \<and> k \<le> 1 \<and> (k = 1 \<longleftrightarrow> m < Suc (length xs))"
proof (cases "m < Suc (length xs)")
  case True
  then have "deque_append m x xs = drop 1 (xs @ [x])"
    unfolding deque_append_def Let_def by (simp only: tl_drop_1) simp
  with True show ?thesis by blast
next
  case False
  then have "deque_append m x xs = drop 0 (xs @ [x])"
    by (simp add: deque_append_def Let_def)
  with False show ?thesis by (metis zero_le_one zero_neq_one)
qed

lemma deque_append_then_drop:
  assumes "length xs \<le> m"
  shows "drop (length (deque_append m l xs) + length ys - m) (deque_append m l xs @ ys)
         = drop (length xs + Suc (length ys) - m) (xs @ l # ys)"
proof (cases "length xs < m")
  case True
  then have "deque_append m l xs = xs @ [l]"
    by (simp add: deque_append_def Let_def)
  then show ?thesis by simp
next
  case False
  with assms have m: "length xs = m" by simp
  then have d: "deque_append m l xs = drop 1 (xs @ [l])"
    unfolding deque_append_def Let_def by (simp only: tl_drop_1) simp
  have "drop 1 (xs @ [l]) @ ys = drop 1 (xs @ l # ys)"
    by (cases xs) simp_all
  then have "drop (length ys) (deque_append m l xs @ ys) = drop (Suc (length ys)) (xs @ l # ys)"
    using d by (simp del: drop_append append.simps add: drop_Suc tl_drop)
  moreover have "length (deque_append m l xs) = m"
    using d m by simp
  ultimately show ?thesis using m by simp
qed

lemma update_static_info_started:
  assumes "live_started s"
  shows "static_content (snd (update_static_info rnd l t s))
           = deque_append (max_static_lines s) l (static_content s)"
    and "live_started (snd (update_static_info rnd l t s))"
    and "max_static_lines (snd (update_static_info rnd l t s)) = max_static_lines s"
  using assms by (simp_all add: update_static_info_def log_to_file_def)

lemma run_update_static:
  assumes "live_started s" and "length (static_content s) \<le> max_static_lines s"
  shows "static_content (run rnd (map (\<lambda>(l, t). UpdateStatic l t) lts) s)
         = drop (length (static_content s) + length lts - max_static_lines s)
             (static_content s @ map fst lts)"
  using assms
proof (induction lts arbitrary: s)
  case Nil
  then show ?case by simp
next
  case (Cons a lts)
  obtain l t where a: "a = (l, t)" by (cases a)
  let ?s = "snd (update_static_info rnd l t s)"
  have len: "length (static_content ?s) \<le> max_static_lines ?s"
    using Cons.prems by (simp add: update_static_info_started length_deque_append)
  have "static_content (run rnd (map (\<lambda>(l, t). UpdateStatic l t) lts) ?s)
        = drop (length (static_content ?s) + length lts - max_static_lines ?s)
            (static_content ?s @ map fst lts)"
    using Cons.prems len by (intro Cons.IH) (simp_all add: update_static_info_started)
  also have "\<dots> = drop (length (static_content s) + Suc (length lts) - max_static_lines s)
                   (static_content s @ l # map fst lts)"
    using deque_append_then_drop [OF Cons.prems(2), of l "map fst lts"] Cons.prems(1)
    by (simp add: update_static_info_started)
  finally show ?case by (simp add: a)
qed

lemma static_content_frame:
  "static_content (snd (apply_op rnd c s)) = static_content s
   \<or> (\<exists>l t. c = UpdateStatic l t
          \<and> static_content (snd (apply_op rnd c s))
              = deque_append (max_static_lines s) l (static_content s))"
proof (cases c)
  case (Start f n1 n2)
  then show ?thesis by (simp add: start_def)
next
  case (Stop b r1 r2 pr n1 n2 el)
  have "static_content (snd (complete r1 s)) = static_content s"
    by (auto simp: complete_def Let_def split: sum.splits)
  then show ?thesis using Stop
    by (cases "complete r1 s") (auto simp: stop_def Let_def split: option.splits)
next
  case (InitOverall t n k)
  then show ?thesis
    by (auto simp: init_overall_task_def split_beta split: sum.splits)
next
  case (InitSubtask t n)
  then show ?thesis
    by (auto simp: init_subtask_def split_beta split: sum.splits)
next
  case (UpdateProgress k i)
  then show ?thesis
    by (auto simp: update_progress_def Let_def split: sum.splits)
next
  case (UpdateLive i n)
  then show ?thesis by (simp add: update_live_info_def log_to_file_def)
next
  case (UpdateStatic i n)
  then show ?thesis by (simp add: update_static_info_def log_to_file_def)
next
  case (Complete r)
  then show ?thesis by (auto simp: complete_def Let_def split: sum.splits)
qed

text \<open>
  Claim C4. The history is a \<^verbatim>\<open>deque\<close> of capacity \<open>C = max_static_lines\<close>, filled by
  \<^verbatim>\<open>update_static_info\<close>. On a started monitor whose history is within its capacity,
  after pushing \<open>M > C\<close> lines the history is exactly the last \<open>C\<close> pushed lines, oldest
  first. Entries leave only by eviction: every public call either leaves the history as
  it was or is an \<^verbatim>\<open>update_static_info\<close> that appends its line, and an append drops
  nothing but the oldest entry, and that exactly when the capacity is exceeded. With
  capacity 3, pushing a, b, c, d gives b, c, d.
\<close>

theorem history_keeps_last_lines:
  "(live_started s \<and> length (static_content s) \<le> max_static_lines s
     \<and> max_static_lines s < length lts \<longrightarrow>
      static_content (run rnd (map (\<lambda>(l, t). UpdateStatic l t) lts) s)
        = drop (length lts - max_static_lines s) (map fst lts))
   \<and> (static_content (snd (apply_op rnd c s)) = static_content s
       \<or> (\<exists>l t. c = UpdateStatic l t
              \<and> static_content (snd (apply_op rnd c s))
                  = deque_append (max_static_lines s) l (static_content s)))
   \<and> (\<exists>k. deque_append m x xs = drop k (xs @ [x]) \<and> k \<le> 1 \<and> (k = 1 \<longleftrightarrow> m < Suc (length xs)))"
proof -
  have "static_content (run rnd (map (\<lambda>(l, t). UpdateStatic l t) lts) s)
        = drop (length lts - max_static_lines s) (map fst lts)"
    if "live_started s" and "length (static_content s) \<le> max_static_lines s"
      and "max_static_lines s < length lts"
    using run_update_static [OF that(1,2), of rnd lts] that(2,3) by simp
  with static_content_frame [of rnd c s] deque_append_evicts [of m x xs] show ?thesis
    by blast
qed

theorem history_keeps_last_lines_witness:
  "live_started (snd (start True clock0 clock0 (init_state 3)))
   \<and> length (static_content (snd (start True clock0 clock0 (init_state 3))))
       \<le> max_static_lines (snd (start True clock0 clock0 (init_state 3)))
   \<and> max_static_lines (snd (start True clock0 clock0 (init_state 3)))
       < length [(''a'', clock0), (''b'', clock0), (''c'', clock0), (''d'', clock0)]
   \<and> static_content
        (run round_double (map (\<lambda>(l, t). UpdateStatic l t)
                [(''a'', clock0), (''b'', clock0), (''c'', clock0), (''d'', clock0)])
           (snd (start True clock0 clock0 (init_state 3))))
       = [''b'', ''c'', ''d'']"
  using history_keeps_last_lines
      [of "snd (start True clock0 clock0 (init_state 3))"
          "[(''a'', clock0), (''b'', clock0), (''c'', clock0), (''d'', clock0)]"
          round_double "Complete True" 3 "''x''" "[]", THEN conjunct1]
  by (simp add: init_state_def start_def)

section \<open>Progress accounting\<close>

lemma update_progress_active:
  assumes "live_started s" and "subtask s = Some i" and "overall_task s = Some j"
    and "i \<in> set (task_ids (progress s))" and "j \<in> set (task_ids (progress s))"
    and "subtask_total s \<noteq> 0"
  shows "update_progress rnd k info s =
    (None,
     s\<lparr>progress := (progress s)\<lparr>tasks :=
          AList.map_entry j
            (advance_task (\<lambda>c. rnd (rnd c + rnd (of_int k / of_int (subtask_total s)))) None)
            (AList.map_entry i (advance_task (\<lambda>c. c + of_int k) (Some info))
               (tasks (progress s)))\<rparr>,
       subtask_completed := subtask_completed s + k,
       overall_completed :=
         rnd (rnd (overall_completed s) + rnd (of_int k / of_int (subtask_total s)))\<rparr>)"
  using assms
  by (simp add: update_progress_def Let_def update_task_live task_ids_map_entry)

lemma task_completed_advance:
  assumes "i \<noteq> j"
  shows "task_completed j
           (s\<lparr>progress := (progress s)\<lparr>tasks :=
                AList.map_entry j (advance_task f None)
                  (AList.map_entry i (advance_task g x) (tasks (progress s)))\<rparr>,
              subtask_completed := sc, overall_completed := oc\<rparr>)
         = map_option f (task_completed j s)"
  using assms
  by (simp add: task_completed_def AList.map_of_map_entry advance_task_def
      split: option.splits)

lemma exec_updates:
  assumes "live_started s" and "subtask s = Some i" and "overall_task s = Some j"
    and "i \<in> set (task_ids (progress s))" and "j \<in> set (task_ids (progress s))"
    and "subtask_total s \<noteq> 0" and "i \<noteq> j"
  shows "\<exists>s'. exec (\<lambda>x. x) (map (\<lambda>(k, info). UpdateProgress k info) calls) s = (None, s')
      \<and> overall_completed s'
          = overall_completed s + of_int (sum_list (map fst calls)) / of_int (subtask_total s)
      \<and> subtask_completed s' = subtask_completed s + sum_list (map fst calls)
      \<and> task_completed j s'
          = map_option (\<lambda>c. c + of_int (sum_list (map fst calls)) / of_int (subtask_total s))
              (task_completed j s)"
  using assms
proof (induction calls arbitrary: s)
  case Nil
  then show ?case by (simp add: option.map_ident)
next
  case (Cons a calls)
  obtain k info where a: "a = (k, info)" by (cases a)
  define s1 where "s1 = snd (update_progress (\<lambda>x. x) k info s)"
  have up: "update_progress (\<lambda>x. x) k info s = (None, s1)"
    and s1: "s1 = s\<lparr>progress := (progress s)\<lparr>tasks :=
          AList.map_entry j (advance_task (\<lambda>c. c + of_int k / of_int (subtask_total s)) None)
            (AList.map_entry i (advance_task (\<lambda>c. c + of_int k) (Some info))
               (tasks (progress s)))\<rparr>,
       subtask_completed := subtask_completed s + k,
       overall_completed := overall_completed s + of_int k / of_int (subtask_total s)\<rparr>"
    unfolding s1_def
    using update_progress_active [OF Cons.prems(1-6), of "\<lambda>x. x" k info] by simp_all
  have tc: "task_completed j s1
            = map_option (\<lambda>c. c + of_int k / of_int (subtask_total s)) (task_completed j s)"
    unfolding s1 using Cons.prems(7) by (rule task_completed_advance)
  have "\<exists>s'. exec (\<lambda>x. x) (map (\<lambda>(k, info). UpdateProgress k info) calls) s1 = (None, s')
      \<and> overall_completed s'
          = overall_completed s1 + of_int (sum_list (map fst calls)) / of_int (subtask_total s1)
      \<and> subtask_completed s' = subtask_completed s1 + sum_list (map fst calls)
      \<and> task_completed j s'
          = map_option (\<lambda>c. c + of_int (sum_list (map fst calls)) / of_int (subtask_total s1))
              (task_completed j s1)"
    using Cons.prems by (intro Cons.IH) (simp_all add: s1 task_ids_map_entry)
  then obtain s' where s':
    "exec (\<lambda>x. x) (map (\<lambda>(k, info). UpdateProgress k info) calls) s1 = (None, s')"
    "overall_completed s'
       = overall_completed s1 + of_int (sum_list (map fst calls)) / of_int (subtask_total s1)"
    "subtask_completed s' = subtask_completed s1 + sum_list (map fst calls)"
    "task_completed j s'
       = map_option (\<lambda>c. c + of_int (sum_list (map fst calls)) / of_int (subtask_total s1))
           (task_completed j s1)"
    by blast
  have "exec (\<lambda>x. x) (map (\<lambda>(k, info). UpdateProgress k info) (a # calls)) s = (None, s')"
    using up s'(1) by (simp add: a)
  moreover have "overall_completed s'
      = overall_completed s + of_int (sum_list (map fst (a # calls))) / of_int (subtask_total s)"
    using s'(2) by (simp add: s1 a add_divide_distrib)
  moreover have "subtask_completed s' = subtask_completed s + sum_list (map fst (a # calls))"
    using s'(3) by (simp add: s1 a)
  moreover have "task_completed j s'
      = map_option (\<lambda>c. c + of_int (sum_list (map fst (a # calls))) / of_int (subtask_total s))
          (task_completed j s)"
    using s'(4) tc
    by (simp add: s1 a add_divide_distrib option.map_comp comp_def add.assoc)
  ultimately show ?case by blast
qed

lemma init_subtask_ok:
  assumes "consistent s" and "live_started s" and "0 < total_tasks"
  shows "fst (init_subtask title total_tasks s) = None"
    and "subtask (snd (init_subtask title total_tasks s)) = Some (task_index (progress s))"
    and "subtask_total (snd (init_subtask title total_tasks s)) = total_tasks"
    and "subtask_completed (snd (init_subtask title total_tasks s)) = 0"
    and "live_started (snd (init_subtask title total_tasks s))"
    and "overall_task (snd (init_subtask title total_tasks s)) = overall_task s"
    and "overall_completed (snd (init_subtask title total_tasks s)) = overall_completed s"
    and "overall_total (snd (init_subtask title total_tasks s)) = overall_total s"
    and "task_index (progress s) \<in> set (task_ids (progress (snd (init_subtask title total_tasks s))))"
    and "task_completed (task_index (progress s)) (snd (init_subtask title total_tasks s)) = Some 0"
  using assms
  by (cases "subtask s";
      simp add: consistent_iff init_subtask_def remove_task_live split_beta add_task_facts;
      simp add: add_task_def task_completed_def AList.update_conv')+

lemma init_subtask_old_removed:
  assumes "consistent s" and "live_started s" and "0 < total_tasks"
    and "subtask s = Some i" and "i \<noteq> 0"
  shows "i \<notin> set (task_ids (progress (snd (init_subtask title total_tasks s))))"
  using assms
  by (auto simp: consistent_iff init_subtask_def remove_task_live split_beta add_task_facts
      task_ids_delete)

lemma init_subtask_keeps_overall:
  assumes "consistent s" and "live_started s" and "0 < total_tasks"
    and "overall_task s = Some j"
  shows "j \<in> set (task_ids (progress (snd (init_subtask title total_tasks s))))"
    and "task_completed j (snd (init_subtask title total_tasks s)) = task_completed j s"
    and "j \<noteq> task_index (progress s)"
proof -
  from assms show "j \<noteq> task_index (progress s)"
    by (auto simp: consistent_iff)
  from assms show "j \<in> set (task_ids (progress (snd (init_subtask title total_tasks s))))"
    by (cases "subtask s")
      (auto simp: consistent_iff init_subtask_def remove_task_live split_beta add_task_facts
        task_ids_delete)
  from assms have "j < task_index (progress s)"
    by (auto simp: consistent_iff)
  with assms show "task_completed j (snd (init_subtask title total_tasks s)) = task_completed j s"
    by (cases "subtask s")
      (auto simp: consistent_iff init_subtask_def remove_task_live split_beta
        add_task_def task_completed_def AList.update_conv' AList.delete_conv')
qed

text \<open>
  Claim C1. Let the monitor be started and consistent, with an overall task \<open>j\<close>, and let
  \<^verbatim>\<open>init_subtask\<close> set up a subtask of \<open>N > 0\<close> steps. Then for every sequence of
  \<^verbatim>\<open>update_progress(step, info)\<close> calls whose steps add up to \<open>N\<close>, every call returns, and
  afterwards the overall completed counter (the stored \<^verbatim>\<open>_overall_completed\<close> and the
  count of the overall progress bar alike) is exactly \<open>1\<close> more than it was when the subtask
  was initialised, whatever \<open>N\<close> is; the subtask counter is \<open>N\<close>. Arithmetic is exact
  (rationals): the rounding is the identity.
\<close>

theorem subtask_completion_adds_one_unit:
  assumes "consistent s0" and "live_started s0" and "overall_task s0 = Some j"
    and "0 < N" and "sum_list (map fst calls) = N"
  shows "fst (init_subtask title N s0) = None
    \<and> (\<exists>s2. exec (\<lambda>x. x) (map (\<lambda>(step, info). UpdateProgress step info) calls)
               (snd (init_subtask title N s0)) = (None, s2)
          \<and> overall_completed s2 = overall_completed s0 + 1
          \<and> task_completed j s2 = map_option (\<lambda>c. c + 1) (task_completed j s0)
          \<and> subtask_completed s2 = N)"
proof -
  let ?s1 = "snd (init_subtask title N s0)"
  note ok = init_subtask_ok [OF assms(1,2,4)]
  note ov = init_subtask_keeps_overall [OF assms(1,2,4,3)]
  have "\<exists>s'. exec (\<lambda>x. x) (map (\<lambda>(k, info). UpdateProgress k info) calls) ?s1 = (None, s')
      \<and> overall_completed s'
          = overall_completed ?s1 + of_int (sum_list (map fst calls)) / of_int (subtask_total ?s1)
      \<and> subtask_completed s' = subtask_completed ?s1 + sum_list (map fst calls)
      \<and> task_completed j s'
          = map_option (\<lambda>c. c + of_int (sum_list (map fst calls)) / of_int (subtask_total ?s1))
              (task_completed j ?s1)"
  proof (rule exec_updates)
    show "live_started ?s1" by (rule ok(5))
    show "subtask ?s1 = Some (task_index (progress s0))" by (rule ok(2))
    show "overall_task ?s1 = Some j" using ok(6) assms(3) by simp
    show "task_index (progress s0) \<in> set (task_ids (progress ?s1))" by (rule ok(9))
    show "j \<in> set (task_ids (progress ?s1))" by (rule ov(1))
    show "subtask_total ?s1 \<noteq> 0" using ok(3) assms(4) by simp
    show "task_index (progress s0) \<noteq> j" using ov(3) by simp
  qed
  then show ?thesis
    using ok(1,3,4,7) ov(2) assms(4,5) by auto
qed


lemmas eval_defs =
  init_state_def new_progress_def start_def init_overall_task_def init_subtask_def
  update_progress_def update_task_def remove_task_def add_task_def task_ids_def
  advance_task_def Let_def

theorem subtask_completion_adds_one_unit_witness:
  "consistent (run (\<lambda>x. x) [Start True clock0 clock0, InitOverall ''P'' 2 0] (init_state 1000))
   \<and> live_started (run (\<lambda>x. x) [Start True clock0 clock0, InitOverall ''P'' 2 0] (init_state 1000))
   \<and> overall_task (run (\<lambda>x. x) [Start True clock0 clock0, InitOverall ''P'' 2 0] (init_state 1000)) = Some 0
   \<and> (0::int) < 3
   \<and> sum_list (map fst [(1::int, ''''), (2, ''x'')]) = 3
   \<and> overall_completed (run (\<lambda>x. x) [Start True clock0 clock0, InitOverall ''P'' 2 0] (init_state 1000)) = 0
   \<and> (\<exists>s2. exec (\<lambda>x. x) (map (\<lambda>(step, info). UpdateProgress step info) [(1, ''''), (2, ''x'')])
              (snd (init_subtask ''A'' 3
                 (run (\<lambda>x. x) [Start True clock0 clock0, InitOverall ''P'' 2 0] (init_state 1000))))
            = (None, s2)
          \<and> overall_completed s2 = 1 \<and> task_completed 0 s2 = Some 1 \<and> subtask_completed s2 = 3)"
proof -
  let ?s0 = "run (\<lambda>x. x) [Start True clock0 clock0, InitOverall ''P'' 2 0] (init_state 1000)"
  have c: "consistent ?s0"
    by (simp only: consistent_run consistent_init_state)
  have l: "live_started ?s0" and o: "overall_task ?s0 = Some 0"
    and z: "overall_completed ?s0 = 0" and t: "task_completed 0 ?s0 = Some 0"
    by (simp_all add: eval_defs task_completed_def)
  have n: "(0::int) < 3" and sm: "sum_list (map fst [(1::int, ''''), (2, ''x'')]) = 3"
    by simp_all
  from subtask_completion_adds_one_unit [OF c l o n sm, of "''A''"] c l o z t show ?thesis
    by simp
qed


lemma init_subtask_new_handle:
  assumes "consistent s"
  shows "subtask s \<noteq> Some (task_index (progress s))"
  using assms by (auto simp: consistent_iff)

text \<open>
  What \<^verbatim>\<open>init_subtask\<close> does on a started, consistent monitor with a positive total: it
  returns, makes a fresh task the current subtask, stores the new total, resets the
  completed counter to \<open>0\<close> (in the monitor and in the progress display) and leaves the
  overall task alone. The bar of the old subtask is removed when its id is not \<open>0\<close>.
\<close>

lemma init_subtask_resets:
  assumes "consistent s" and "live_started s" and "0 < total_tasks"
  shows "fst (init_subtask title total_tasks s) = None
      \<and> subtask (snd (init_subtask title total_tasks s)) = Some (task_index (progress s))
      \<and> subtask (snd (init_subtask title total_tasks s)) \<noteq> subtask s
      \<and> subtask_total (snd (init_subtask title total_tasks s)) = total_tasks
      \<and> subtask_completed (snd (init_subtask title total_tasks s)) = 0
      \<and> task_completed (task_index (progress s)) (snd (init_subtask title total_tasks s)) = Some 0
      \<and> (\<forall>i. subtask s = Some i \<and> i \<noteq> 0 \<longrightarrow>
            i \<notin> set (task_ids (progress (snd (init_subtask title total_tasks s)))))
      \<and> overall_task (snd (init_subtask title total_tasks s)) = overall_task s
      \<and> overall_completed (snd (init_subtask title total_tasks s)) = overall_completed s
      \<and> overall_total (snd (init_subtask title total_tasks s)) = overall_total s"
  using init_subtask_ok [OF assms, of title] init_subtask_old_removed [OF assms, of _ title]
    init_subtask_new_handle [OF assms(1)]
  by simp

text \<open>
  The scenario of the spec, in exact arithmetic: after \<^verbatim>\<open>start()\<close>,
  \<^verbatim>\<open>init_overall_task("P", 2)\<close>, \<^verbatim>\<open>init_subtask("A", 4)\<close> and four \<^verbatim>\<open>update_progress()\<close> the
  overall counter is \<open>1\<close> and the subtask counter \<open>4\<close>; after \<^verbatim>\<open>init_subtask("B", 2)\<close> and two
  more \<^verbatim>\<open>update_progress()\<close> the overall counter is \<open>2\<close>.
\<close>

lemma scenario_counters:
  "fst (exec (\<lambda>x. x) scenario_A (init_state cap)) = None"
  "overall_completed (snd (exec (\<lambda>x. x) scenario_A (init_state cap))) = 1"
  "subtask_completed (snd (exec (\<lambda>x. x) scenario_A (init_state cap))) = 4"
  "fst (exec (\<lambda>x. x) (scenario_A @ scenario_B) (init_state cap)) = None"
  "overall_completed (snd (exec (\<lambda>x. x) (scenario_A @ scenario_B) (init_state cap))) = 2"
  "task_ids (progress (snd (exec (\<lambda>x. x) (scenario_A @ scenario_B) (init_state cap)))) = [0, 2]"
  by (simp_all add: scenario_A_def scenario_B_def eval_defs)

text \<open>The same scenario with the floats of the machine: every value in it is a float.\<close>

lemma round_double_scenario_values:
  "round_double 0 = 0"
  "round_double (1 / 4) = 1 / 4"
  "round_double (1 / 2) = 1 / 2"
  "round_double (3 / 4) = 3 / 4"
  "round_double 1 = 1"
  "round_double (3 / 2) = 3 / 2"
  "round_double 2 = 2"
  by code_simp+

lemma scenario_counters_double:
  "fst (exec round_double scenario_A (init_state cap)) = None"
  "overall_completed (snd (exec round_double scenario_A (init_state cap))) = 1"
  "subtask_completed (snd (exec round_double scenario_A (init_state cap))) = 4"
  "fst (exec round_double (scenario_A @ scenario_B) (init_state cap)) = None"
  "overall_completed (snd (exec round_double (scenario_A @ scenario_B) (init_state cap))) = 2"
  by (simp_all add: scenario_A_def scenario_B_def eval_defs round_double_scenario_values)

text \<open>
  Claim C7 says that \<^verbatim>\<open>init_subtask\<close> replaces any existing subtask and resets the
  completed counter, so that progress adds up over consecutive subtasks. The counter is
  reset and the scenario holds (\<open>init_subtask_resets\<close>, \<open>scenario_counters\<close>), but the
  existing subtask is replaced in the display only when its task id is not \<open>0\<close>: the test
  \<^verbatim>\<open>if self.subtask:\<close> is false for the first task id the progress display hands out.
  Evaluated on \<^verbatim>\<open>start()\<close>, \<^verbatim>\<open>init_subtask("A", 4)\<close>, \<^verbatim>\<open>init_subtask("B", 2)\<close>: both calls
  return, subtask A gets id 0, and after the second call the handle is that of B (id 1)
  while the display still holds the bars of A and of B. Where the old subtask has
  another id (in the scenario: id 1, the overall task having id 0) it is removed.
\<close>

theorem init_subtask_keeps_task_zero:
  "fst (exec round_double
          [Start True clock0 clock0, InitSubtask ''A'' 4, InitSubtask ''B'' 2]
          (init_state 1000)) = None
   \<and> subtask (snd (exec round_double [Start True clock0 clock0, InitSubtask ''A'' 4]
          (init_state 1000))) = Some 0
   \<and> subtask (snd (exec round_double
          [Start True clock0 clock0, InitSubtask ''A'' 4, InitSubtask ''B'' 2]
          (init_state 1000))) = Some 1
   \<and> map (\<lambda>(i, t). (i, t_description t))
        (tasks (progress (snd (exec round_double
          [Start True clock0 clock0, InitSubtask ''A'' 4, InitSubtask ''B'' 2]
          (init_state 1000)))))
       = [(0, ''[green]A''), (1, ''[green]B'')]
   \<and> map (\<lambda>(i, t). (i, t_description t))
        (tasks (progress (snd (exec round_double
          [Start True clock0 clock0, InitOverall ''P'' 2 0, InitSubtask ''A'' 4,
           InitSubtask ''B'' 2]
          (init_state 1000)))))
       = [(0, ''[cyan]P''), (2, ''[green]B'')]"
  by (simp add: eval_defs)


section \<open>The log file\<close>


























section \<open>Completion\<close>

lemma complete_keeps_counters:
  "overall_completed (snd (complete r s)) = overall_completed s"
  "overall_total (snd (complete r s)) = overall_total s"
  "subtask_completed (snd (complete r s)) = subtask_completed s"
  "subtask_total (snd (complete r s)) = subtask_total s"
  by (auto simp: complete_def Let_def split: sum.splits)

lemma info_updates_keep_counters:
  "overall_completed (snd (update_live_info rnd info now s)) = overall_completed s"
  "overall_total (snd (update_live_info rnd info now s)) = overall_total s"
  "subtask_completed (snd (update_live_info rnd info now s)) = subtask_completed s"
  "subtask_total (snd (update_live_info rnd info now s)) = subtask_total s"
  "overall_completed (snd (update_static_info rnd info now s)) = overall_completed s"
  "overall_total (snd (update_static_info rnd info now s)) = overall_total s"
  "subtask_completed (snd (update_static_info rnd info now s)) = subtask_completed s"
  "subtask_total (snd (update_static_info rnd info now s)) = subtask_total s"
  by (simp_all add: update_live_info_def update_static_info_def log_to_file_def)

lemma complete_clears_nonzero_handles:
  assumes "consistent s" and "live_started s"
  shows "subtask (snd (complete r s)) = (if subtask s = Some 0 then Some 0 else None)"
    and "overall_task (snd (complete r s)) = (if overall_task s = Some 0 then Some 0 else None)"
  using assms
  by (cases "subtask s"; cases "overall_task s";
      auto simp: consistent_iff complete_def Let_def remove_task_live task_ids_delete)+

text \<open>
  Claim C10 says that \<^verbatim>\<open>complete()\<close> clears both task handles and leaves the counters
  alone. The counters are indeed left alone (\<open>complete_keeps_counters\<close>,
  \<open>info_updates_keep_counters\<close>), but a handle is cleared only when its task id is not
  \<open>0\<close> (\<open>complete_clears_nonzero_handles\<close>): the test \<^verbatim>\<open>if self.overall_task:\<close> is false
  for the first task id the progress display hands out. Evaluated on \<^verbatim>\<open>start()\<close>,
  \<^verbatim>\<open>init_overall_task("P", 2)\<close>, \<^verbatim>\<open>init_subtask("A", 4)\<close>, \<^verbatim>\<open>complete()\<close>: the subtask
  (id 1) is cleared, the overall task (id 0) keeps its handle and its bar.
\<close>

theorem complete_keeps_task_zero:
  "fst (exec round_double
          [Start True clock0 clock0, InitOverall ''P'' 2 0, InitSubtask ''A'' 4, Complete True]
          (init_state 1000)) = None
   \<and> subtask (snd (exec round_double
          [Start True clock0 clock0, InitOverall ''P'' 2 0, InitSubtask ''A'' 4, Complete True]
          (init_state 1000))) = None
   \<and> overall_task
        (snd (exec round_double
          [Start True clock0 clock0, InitOverall ''P'' 2 0, InitSubtask ''A'' 4, Complete True]
          (init_state 1000))) = Some 0
   \<and> task_ids (progress
        (snd (exec round_double
          [Start True clock0 clock0, InitOverall ''P'' 2 0, InitSubtask ''A'' 4, Complete True]
          (init_state 1000)))) = [0]"
  by (simp add: eval_defs complete_def)

end
